theory Spec2Isabelle
  imports Main "HOL-Library.Word" "HOL-Library.Multiset"
begin

section \<open>The schema builder of \<^verbatim>\<open>frontend/src/components/cpy.js\<close>\<close>

subsection \<open>JavaScript values\<close>

text \<open>
  A JavaScript string is a sequence of UTF-16 code units. \<open>str\<close> writes an ASCII
  literal of the source as such a sequence.
\<close>

type_synonym jsstring = "16 word list"

definition str :: "string \<Rightarrow> jsstring" where
  "str s = map (\<lambda>c. of_nat (of_char c)) s"

text \<open>
  A property of an object is absent (never set, or removed by \<^verbatim>\<open>delete\<close>), present
  with the value \<^verbatim>\<open>undefined\<close>, or present with a value.
\<close>

datatype 'a jsprop = Absent | Undefined | Val 'a

text \<open>The three values of the type selector (lines 136 to 138).\<close>

datatype kind = String | Number | Nested

text \<open>
  The object built by \<^verbatim>\<open>createNewField\<close> (lines 7 to 13): \<^verbatim>\<open>id\<close>, \<^verbatim>\<open>key\<close>,
  \<^verbatim>\<open>type\<close>, \<^verbatim>\<open>children\<close>, \<^verbatim>\<open>collapsed\<close>.
\<close>

datatype field = SchemaField (fid: jsstring) (key: jsstring) (ftype: kind)
  (children: "field list jsprop") (collapsed: "bool jsprop")

text \<open>
  The document built by \<^verbatim>\<open>convertToJSON\<close>: the own properties of the result
  object, which is all that \<^verbatim>\<open>JSON.stringify\<close> (lines 262 and 285) reads.
\<close>

datatype json = JString jsstring | JNumber int | JObject "jsstring \<Rightarrow> json option"

type_synonym document = "jsstring \<Rightarrow> json option"

text \<open>Truthiness of \<^verbatim>\<open>field.children\<close> (an array is truthy, also when empty) and
  of \<^verbatim>\<open>field.collapsed\<close>.\<close>

fun truthy_array :: "'a list jsprop \<Rightarrow> bool" where
  "truthy_array (Val cs) = True"
| "truthy_array _ = False"

fun truthy_bool :: "bool jsprop \<Rightarrow> bool" where
  "truthy_bool (Val b) = b"
| "truthy_bool _ = False"

text \<open>
  \<^verbatim>\<open>String.prototype.trim\<close>: the code units of ECMAScript's WhiteSpace and
  LineTerminator productions are removed from both ends.
\<close>

definition isWhiteSpace :: "16 word \<Rightarrow> bool" where
  "isWhiteSpace c \<longleftrightarrow>
     c \<in> set [0x0009, 0x000A, 0x000B, 0x000C, 0x000D, 0x0020, 0x00A0, 0x1680,
              0x2000, 0x2001, 0x2002, 0x2003, 0x2004, 0x2005, 0x2006, 0x2007,
              0x2008, 0x2009, 0x200A, 0x2028, 0x2029, 0x202F, 0x205F, 0x3000,
              0xFEFF]"

definition trim :: "jsstring \<Rightarrow> jsstring" where
  "trim s = rev (dropWhile isWhiteSpace (rev (dropWhile isWhiteSpace s)))"

subsection \<open>Utility functions\<close>

text \<open>
  \<^verbatim>\<open>generateId\<close> (line 5) is \<^verbatim>\<open>Math.random().toString(36).substr(2, 9)\<close>. Its
  result is an input of the model: every function that calls it takes the string it
  returned as the argument \<open>gid\<close>. Nothing in the source compares it with the ids
  already in use.
\<close>

definition createNewField :: "jsstring \<Rightarrow> kind \<Rightarrow> field" where
  "createNewField gid type =
     SchemaField gid [] type (if type = Nested then Val [] else Undefined) (Val False)"

text \<open>
  \<^verbatim>\<open>result[field.key] = v\<close> on the object literal \<^verbatim>\<open>{}\<close>. The object inherits
  the accessor \<^verbatim>\<open>__proto__\<close> from \<^verbatim>\<open>Object.prototype\<close>, so an assignment under
  that key runs the setter: a string or a number is ignored, an object becomes the
  prototype, and no own property is created. Every other key creates or overwrites an
  own property.
\<close>

definition assign :: "document \<Rightarrow> jsstring \<Rightarrow> json \<Rightarrow> document" where
  "assign result k v = (if k = str ''__proto__'' then result else result(k \<mapsto> v))"

text \<open>
  \<^verbatim>\<open>convertToJSON\<close> (lines 15 to 29). \<open>convertField\<close> is the body of the callback
  of \<^verbatim>\<open>forEach\<close>, \<open>forEachField\<close> the iteration over the array with the result
  object threaded through.
\<close>

fun convertField :: "field \<Rightarrow> document \<Rightarrow> document"
  and forEachField :: "field list \<Rightarrow> document \<Rightarrow> document" where
  "convertField (SchemaField i k t ch co) result =
     (if t = String then assign result k (JString (str ''string''))
      else if t = Number then assign result k (JNumber 42)
      else if t = Nested \<and> truthy_array ch then
        (case ch of
           Val cs \<Rightarrow> assign result k (JObject (forEachField cs Map.empty))
         | _ \<Rightarrow> result)
      else result)"
| "forEachField [] result = result"
| "forEachField (f # fs) result = forEachField fs (convertField f result)"

definition convertToJSON :: "field list \<Rightarrow> document" where
  "convertToJSON fields = forEachField fields Map.empty"

subsection \<open>The handlers of a field component\<close>

text \<open>The local state of \<^verbatim>\<open>SchemaFieldComponent\<close> (lines 33 and 34).\<close>

datatype component_state = ComponentState (isEditing: bool) (editValue: jsstring)

text \<open>
  Each handler returns the argument of its call of \<^verbatim>\<open>onUpdate\<close>, or \<open>None\<close> when
  it does not call it and the field stays as it is.
\<close>

definition handleKeyUpdate :: "field \<Rightarrow> component_state \<Rightarrow> field option \<times> component_state" where
  "handleKeyUpdate field st =
     (if trim (editValue st) \<noteq> [] then
        (Some (SchemaField (fid field) (trim (editValue st)) (ftype field)
                 (children field) (collapsed field)),
         ComponentState False (editValue st))
      else (None, ComponentState False (key field)))"

definition handleTypeChange :: "field \<Rightarrow> kind \<Rightarrow> field" where
  "handleTypeChange field newType =
     (if newType = Nested
      then SchemaField (fid field) (key field) newType (Val []) (Val False)
      else SchemaField (fid field) (key field) newType Absent Absent)"

definition toggleCollapsed :: "field \<Rightarrow> field" where
  "toggleCollapsed field =
     SchemaField (fid field) (key field) (ftype field) (children field)
       (Val (\<not> truthy_bool (collapsed field)))"

definition handleAddNestedField :: "jsstring \<Rightarrow> field \<Rightarrow> field option" where
  "handleAddNestedField gid field =
     (if ftype field = Nested then
        Some (SchemaField (fid field) (key field) (ftype field)
                (Val ((case children field of Val cs \<Rightarrow> cs | _ \<Rightarrow> []) @ [createNewField gid String]))
                (collapsed field))
      else None)"

text \<open>
  \<^verbatim>\<open>newChildren[index] = updatedChild\<close> on a copy of the array. An index below the
  length replaces the element and the length itself appends; beyond it JavaScript
  leaves holes, which a list does not have: \<open>None\<close>. The handlers are created by
  \<^verbatim>\<open>map\<close> over the array (lines 165 and 211), one for each index below the length.
\<close>

definition array_set :: "'a list \<Rightarrow> nat \<Rightarrow> 'a \<Rightarrow> 'a list option" where
  "array_set xs index v =
     (if index < length xs then Some (xs[index := v])
      else if index = length xs then Some (xs @ [v])
      else None)"

text \<open>\<^verbatim>\<open>xs.filter((_, i) => i !== index)\<close>.\<close>

fun filter_index :: "nat \<Rightarrow> nat \<Rightarrow> 'a list \<Rightarrow> 'a list" where
  "filter_index i index [] = []"
| "filter_index i index (x # xs) =
     (if i \<noteq> index then x # filter_index (Suc i) index xs else filter_index (Suc i) index xs)"

definition handleNestedFieldUpdate :: "field \<Rightarrow> nat \<Rightarrow> field \<Rightarrow> field option" where
  "handleNestedFieldUpdate field index updatedChild =
     (case children field of
        Val cs \<Rightarrow>
          (case array_set cs index updatedChild of
             Some newChildren \<Rightarrow>
               Some (SchemaField (fid field) (key field) (ftype field) (Val newChildren)
                       (collapsed field))
           | None \<Rightarrow> None)
      | _ \<Rightarrow> None)"

definition handleNestedFieldDelete :: "field \<Rightarrow> nat \<Rightarrow> field option" where
  "handleNestedFieldDelete field index =
     (case children field of
        Val cs \<Rightarrow>
          Some (SchemaField (fid field) (key field) (ftype field)
                  (Val (filter_index 0 index cs)) (collapsed field))
      | _ \<Rightarrow> None)"

subsection \<open>The handlers of the builder\<close>

text \<open>Each returns the argument of \<^verbatim>\<open>onFieldsChange\<close>, the new root array
  (lines 190 to 207).\<close>

definition handleFieldUpdate :: "field list \<Rightarrow> nat \<Rightarrow> field \<Rightarrow> field list option" where
  "handleFieldUpdate fields index updatedField = array_set fields index updatedField"

definition handleFieldDelete :: "field list \<Rightarrow> nat \<Rightarrow> field list" where
  "handleFieldDelete fields index = filter_index 0 index fields"

definition handleAddField :: "jsstring \<Rightarrow> field list \<Rightarrow> field list" where
  "handleAddField gid fields = fields @ [createNewField gid String]"

definition addFieldWithType :: "jsstring \<Rightarrow> kind \<Rightarrow> field list \<Rightarrow> field list" where
  "addFieldWithType gid type fields = fields @ [createNewField gid type]"

subsection \<open>Events of the user interface\<close>

text \<open>
  What the user can do at one field component: commit an edited name, choose a type,
  press the add button of a nested field (with the id \<^verbatim>\<open>generateId\<close> then
  returns), press the collapse button, press the delete button.
\<close>

datatype event =
    KeyUpdate jsstring
  | TypeChange kind
  | AddNestedField jsstring
  | ToggleCollapsed
  | DeleteField

text \<open>The component's own handler; \<^verbatim>\<open>onDelete\<close> is the parent's handler.\<close>

fun localEvent :: "event \<Rightarrow> field \<Rightarrow> field option" where
  "localEvent (KeyUpdate v) field = fst (handleKeyUpdate field (ComponentState True v))"
| "localEvent (TypeChange newType) field = Some (handleTypeChange field newType)"
| "localEvent (AddNestedField gid) field = handleAddNestedField gid field"
| "localEvent ToggleCollapsed field = Some (toggleCollapsed field)"
| "localEvent DeleteField field = None"

text \<open>
  An event in the component at an index path below \<open>field\<close>, and the value this
  field's own \<^verbatim>\<open>onUpdate\<close> receives: the child's \<^verbatim>\<open>onUpdate\<close> is
  \<^verbatim>\<open>handleNestedFieldUpdate(index, _)\<close> and its \<^verbatim>\<open>onDelete\<close> is
  \<^verbatim>\<open>handleNestedFieldDelete(index)\<close> (lines 169 and 170). The source renders the
  children of a field only when it is \<^verbatim>\<open>Nested\<close> and not collapsed (line 163); the
  model asks for the child to exist only, so its events include those of the interface.
\<close>

fun componentEvent :: "nat list \<Rightarrow> event \<Rightarrow> field \<Rightarrow> field option" where
  "componentEvent [] ev field = localEvent ev field"
| "componentEvent (index # path) ev field =
     (case children field of
        Val cs \<Rightarrow>
          if index < length cs then
            (if path = [] \<and> ev = DeleteField then handleNestedFieldDelete field index
             else (case componentEvent path ev (cs ! index) of
                     Some updatedChild \<Rightarrow> handleNestedFieldUpdate field index updatedChild
                   | None \<Rightarrow> None))
          else None
      | _ \<Rightarrow> None)"

text \<open>The same at the root array, held by \<^verbatim>\<open>JSONSchemaBuilder\<close> (line 303) and
  replaced through \<^verbatim>\<open>onFieldsChange\<close>.\<close>

fun builderEvent :: "nat list \<Rightarrow> event \<Rightarrow> field list \<Rightarrow> field list" where
  "builderEvent [] ev fields = fields"
| "builderEvent (index # path) ev fields =
     (if index < length fields then
        (if path = [] \<and> ev = DeleteField then handleFieldDelete fields index
         else (case componentEvent path ev (fields ! index) of
                 Some updatedField \<Rightarrow>
                   (case handleFieldUpdate fields index updatedField of
                      Some newFields \<Rightarrow> newFields
                    | None \<Rightarrow> fields)
               | None \<Rightarrow> fields))
      else fields)"

datatype action =
    AddField jsstring
  | AddFieldWithType jsstring kind
  | FieldEvent "nat list" event
  | Reset jsstring

fun step :: "action \<Rightarrow> field list \<Rightarrow> field list" where
  "step (AddField gid) fields = handleAddField gid fields"
| "step (AddFieldWithType gid type) fields = addFieldWithType gid type fields"
| "step (FieldEvent path ev) fields = builderEvent path ev fields"
| "step (Reset gid) fields = [createNewField gid String]"

fun run :: "action list \<Rightarrow> field list \<Rightarrow> field list" where
  "run [] fields = fields"
| "run (a # as) fields = run as (step a fields)"

text \<open>The strings a run takes as results of \<^verbatim>\<open>generateId\<close>, one for each action
  that can create a field.\<close>

fun generated :: "action \<Rightarrow> jsstring list" where
  "generated (AddField gid) = [gid]"
| "generated (AddFieldWithType gid type) = [gid]"
| "generated (FieldEvent path (AddNestedField gid)) = [gid]"
| "generated (FieldEvent path ev) = []"
| "generated (Reset gid) = [gid]"

text \<open>All ids of a tree, parents before children.\<close>

fun field_ids :: "field \<Rightarrow> jsstring list"
  and fields_ids :: "field list \<Rightarrow> jsstring list" where
  "field_ids (SchemaField i k t ch co) = i # (case ch of Val cs \<Rightarrow> fields_ids cs | _ \<Rightarrow> [])"
| "fields_ids [] = []"
| "fields_ids (f # fs) = field_ids f @ fields_ids fs"

section \<open>Auxiliary facts\<close>

subsection \<open>Trimming\<close>

lemma trim_decompose:
  "\<exists>pre suf. s = pre @ trim s @ suf \<and> list_all isWhiteSpace pre \<and> list_all isWhiteSpace suf"
proof -
  let ?t = "dropWhile isWhiteSpace s"
  have s: "s = takeWhile isWhiteSpace s @ ?t" by simp
  have "rev (takeWhile isWhiteSpace (rev ?t) @ dropWhile isWhiteSpace (rev ?t)) = rev (rev ?t)"
    by (simp only: takeWhile_dropWhile_id)
  then have t: "?t = trim s @ rev (takeWhile isWhiteSpace (rev ?t))"
    by (simp only: trim_def rev_append rev_rev_ident)
  have "s = takeWhile isWhiteSpace s @ trim s @ rev (takeWhile isWhiteSpace (rev ?t))"
    using s t by metis
  moreover have "list_all isWhiteSpace (takeWhile isWhiteSpace s)"
    by (auto simp: list_all_iff dest: set_takeWhileD)
  moreover have "list_all isWhiteSpace (rev (takeWhile isWhiteSpace (rev ?t)))"
    by (auto simp: list_all_iff dest: set_takeWhileD)
  ultimately show ?thesis by blast
qed

lemma trim_ends:
  assumes "trim s \<noteq> []"
  shows "\<not> isWhiteSpace (hd (trim s))" and "\<not> isWhiteSpace (last (trim s))"
proof -
  let ?t = "dropWhile isWhiteSpace s"
  let ?u = "dropWhile isWhiteSpace (rev ?t)"
  from assms have u: "?u \<noteq> []" by (simp add: trim_def)
  then have t: "?t \<noteq> []" by (metis dropWhile.simps(1) rev.simps(1))
  have "last (trim s) = hd ?u" by (simp add: trim_def last_rev)
  with u show "\<not> isWhiteSpace (last (trim s))" by (simp add: hd_dropWhile)
  have "hd (trim s) = last ?u" using u by (simp add: trim_def hd_rev)
  also have "\<dots> = last (rev ?t)"
  proof -
    have "rev ?t = takeWhile isWhiteSpace (rev ?t) @ ?u" by simp
    then show ?thesis using u by (metis last_appendR)
  qed
  also have "\<dots> = hd ?t" using t by (simp add: last_rev)
  finally show "\<not> isWhiteSpace (hd (trim s))" using t by (simp add: hd_dropWhile)
qed

lemma componentEvent_KeyUpdate_rejected:
  "trim v = [] \<Longrightarrow> componentEvent path (KeyUpdate v) field = None"
proof (induction path arbitrary: field)
  case Nil
  then show ?case by (simp add: handleKeyUpdate_def)
next
  case (Cons index path)
  then show ?case by (simp split: jsprop.splits)
qed

subsection \<open>The serializer\<close>

lemma forEachField_fold: "forEachField xs r = fold convertField xs r"
  by (induction xs arbitrary: r) simp_all

lemma forEachField_append: "forEachField (xs @ ys) r = forEachField ys (forEachField xs r)"
  by (simp add: forEachField_fold)

lemma forEachField_map: "forEachField xs r = fold (\<lambda>g. g) (map convertField xs) r"
  by (simp add: forEachField_fold fold_map comp_def)

lemma convertToJSON_snoc: "convertToJSON (fs @ [f]) = convertField f (convertToJSON fs)"
  by (simp add: convertToJSON_def forEachField_append)

text \<open>What one field adds to the result, for every key but \<^verbatim>\<open>__proto__\<close>.\<close>

lemma convertField_String:
  "ftype f = String \<Longrightarrow> key f \<noteq> str ''__proto__'' \<Longrightarrow>
     convertField f r = r(key f \<mapsto> JString (str ''string''))"
  by (cases f) (simp add: assign_def)

lemma convertField_Number:
  "ftype f = Number \<Longrightarrow> key f \<noteq> str ''__proto__'' \<Longrightarrow>
     convertField f r = r(key f \<mapsto> JNumber 42)"
  by (cases f) (simp add: assign_def)

lemma convertField_Nested:
  "ftype f = Nested \<Longrightarrow> children f = Val cs \<Longrightarrow> key f \<noteq> str ''__proto__'' \<Longrightarrow>
     convertField f r = r(key f \<mapsto> JObject (convertToJSON cs))"
  by (cases f) (simp add: assign_def convertToJSON_def)

lemma convertField_proto: "key f = str ''__proto__'' \<Longrightarrow> convertField f r = r"
  by (cases f) (simp add: assign_def split: jsprop.splits)

lemma convertField_no_children:
  "ftype f = Nested \<Longrightarrow> \<not> truthy_array (children f) \<Longrightarrow> convertField f r = r"
  by (cases f) simp

lemma convertField_other_key: "k \<noteq> key f \<Longrightarrow> convertField f r k = r k"
  by (cases f) (simp add: assign_def split: jsprop.splits)

lemma forEachField_other_keys: "k \<notin> key ` set xs \<Longrightarrow> forEachField xs r k = r k"
  by (induction xs arbitrary: r) (simp_all add: convertField_other_key)

text \<open>The examples P4, P5 and P7 of the specification.\<close>

lemma convertToJSON_defaults:
  "convertToJSON
     [SchemaField (str ''i1'') (str ''a'') String Undefined (Val False),
      SchemaField (str ''i2'') (str ''b'') Number Undefined (Val False)]
   = [str ''a'' \<mapsto> JString (str ''string''), str ''b'' \<mapsto> JNumber 42]"
  by (simp add: convertToJSON_def assign_def str_def)

lemma convertToJSON_nested:
  "convertToJSON
     [SchemaField (str ''i1'') (str ''a'') Nested
        (Val [SchemaField (str ''i2'') (str ''b'') Number Undefined (Val False)]) (Val False)]
   = [str ''a'' \<mapsto> JObject [str ''b'' \<mapsto> JNumber 42]]"
  by (simp add: convertToJSON_def assign_def str_def)

lemma convertToJSON_last_write_wins:
  "convertToJSON
     [SchemaField (str ''i1'') (str ''a'') String Undefined (Val False),
      SchemaField (str ''i2'') (str ''a'') Number Undefined (Val False)]
   = [str ''a'' \<mapsto> JNumber 42]"
  by (simp add: convertToJSON_def assign_def str_def)

text \<open>Replacing an element by one that converts alike does not change the result.\<close>

lemma forEachField_update:
  assumes "index < length cs" and "convertField c = convertField (cs ! index)"
  shows "forEachField (cs[index := c]) = forEachField cs"
proof -
  have "map convertField (cs[index := c]) = (map convertField cs)[index := convertField (cs ! index)]"
    using assms by (simp add: map_update)
  also have "\<dots> = map convertField cs"
    using assms(1) by (metis list_update_id map_update)
  finally show ?thesis by (simp add: forEachField_map fun_eq_iff)
qed

lemma convertField_toggleCollapsed: "convertField (toggleCollapsed f) = convertField f"
  by (cases f) (simp add: toggleCollapsed_def fun_eq_iff)

lemma convertField_children:
  assumes "children f = Val cs" and "forEachField cs' = forEachField cs"
  shows "convertField (SchemaField (fid f) (key f) (ftype f) (Val cs') (collapsed f)) = convertField f"
proof -
  from assms(2) have "forEachField cs' Map.empty = forEachField cs Map.empty" by simp
  with assms(1) show ?thesis by (cases f) auto
qed

lemma componentEvent_toggle:
  "componentEvent path ToggleCollapsed field = Some f' \<Longrightarrow> convertField f' = convertField field"
proof (induction path arbitrary: field f')
  case Nil
  then show ?case by (auto simp: convertField_toggleCollapsed)
next
  case (Cons index path)
  from Cons.prems obtain cs c where cs: "children field = Val cs" and i: "index < length cs"
    and c: "componentEvent path ToggleCollapsed (cs ! index) = Some c"
    and f': "f' = SchemaField (fid field) (key field) (ftype field) (Val (cs[index := c])) (collapsed field)"
    by (auto simp: handleNestedFieldUpdate_def array_set_def split: jsprop.splits if_splits option.splits)
  from Cons.IH[OF c] have "convertField c = convertField (cs ! index)" .
  with i have "forEachField (cs[index := c]) = forEachField cs" by (rule forEachField_update)
  with cs show ?case unfolding f' by (rule convertField_children)
qed

text \<open>The event does toggle the flag of the field it addresses.\<close>

lemma builderEvent_toggle_example:
  "builderEvent [0, 0] ToggleCollapsed
     [SchemaField (str ''p'') (str ''a'') Nested
        (Val [SchemaField (str ''q'') (str ''b'') Nested (Val []) (Val False)]) (Val True)]
   = [SchemaField (str ''p'') (str ''a'') Nested
        (Val [SchemaField (str ''q'') (str ''b'') Nested (Val []) (Val True)]) (Val True)]"
  by (simp add: handleNestedFieldUpdate_def array_set_def handleFieldUpdate_def toggleCollapsed_def)

subsection \<open>The ids of a tree\<close>

lemma fields_ids_append: "fields_ids (xs @ ys) = fields_ids xs @ fields_ids ys"
  by (induction xs) simp_all

lemma field_ids_children:
  "children f = Val cs \<Longrightarrow> field_ids f = fid f # fields_ids cs"
  by (cases f) simp

lemma field_ids_no_children:
  "\<not> truthy_array (children f) \<Longrightarrow> field_ids f = [fid f]"
  by (cases f; cases "children f") simp_all

lemma field_ids_head: "mset [fid f] \<subseteq># mset (field_ids f)"
  by (cases f) simp

lemma mset_fields_ids_update:
  "index < length xs \<Longrightarrow>
     mset (fields_ids (xs[index := c])) + mset (field_ids (xs ! index)) =
     mset (fields_ids xs) + mset (field_ids c)"
proof (induction xs arbitrary: index)
  case Nil
  then show ?case by simp
next
  case (Cons x xs)
  then show ?case by (cases index) simp_all
qed

lemma mset_fields_ids_filter_index:
  "mset (fields_ids (filter_index i index xs)) \<subseteq># mset (fields_ids xs)"
proof (induction xs arbitrary: i)
  case Nil
  then show ?case by simp
next
  case (Cons x xs)
  have "mset (fields_ids (filter_index (Suc i) index xs)) \<subseteq># mset (fields_ids xs)"
    by (rule Cons.IH)
  then show ?case by (auto simp: subset_mset.add_increasing)
qed

lemma generated_path: "generated (FieldEvent path ev) = generated (FieldEvent [] ev)"
  by (cases ev) simp_all

lemma localEvent_ids:
  assumes "localEvent ev field = Some f'"
  shows "mset (field_ids f') \<subseteq># mset (field_ids field) + mset (generated (FieldEvent [] ev))"
proof (cases ev)
  case (KeyUpdate v)
  with assms have "field_ids f' = field_ids field"
    by (cases field) (auto simp: handleKeyUpdate_def split: if_splits)
  then show ?thesis by simp
next
  case (TypeChange t)
  with assms have "field_ids f' = [fid field]"
    by (auto simp: handleTypeChange_def)
  with field_ids_head[of field] show ?thesis
    by (simp add: subset_mset.add_increasing2)
next
  case (AddNestedField gid)
  with assms have "mset (field_ids f') = mset (field_ids field) + mset [gid]"
    by (cases field; cases "children field")
       (auto simp: handleAddNestedField_def createNewField_def fields_ids_append split: if_splits)
  with AddNestedField show ?thesis by simp
next
  case ToggleCollapsed
  with assms have "field_ids f' = field_ids field"
    by (cases field) (auto simp: toggleCollapsed_def)
  then show ?thesis by simp
next
  case DeleteField
  with assms show ?thesis by simp
qed

lemma componentEvent_ids:
  "componentEvent path ev field = Some f' \<Longrightarrow>
     mset (field_ids f') \<subseteq># mset (field_ids field) + mset (generated (FieldEvent [] ev))"
proof (induction path arbitrary: field f')
  case Nil
  then show ?case by (simp add: localEvent_ids)
next
  case (Cons index path)
  from Cons.prems obtain cs where cs: "children field = Val cs" and i: "index < length cs"
    by (auto split: jsprop.splits if_splits)
  show ?case
  proof (cases "path = [] \<and> ev = DeleteField")
    case True
    with Cons.prems cs i
    have "field_ids f' = fid field # fields_ids (filter_index 0 index cs)"
      by (auto simp: handleNestedFieldDelete_def)
    with cs show ?thesis
      by (simp add: field_ids_children mset_fields_ids_filter_index subset_mset.add_increasing2)
  next
    case False
    with Cons.prems cs i obtain c where c: "componentEvent path ev (cs ! index) = Some c"
      and f': "field_ids f' = fid field # fields_ids (cs[index := c])"
      by (auto simp: handleNestedFieldUpdate_def array_set_def split: option.splits if_splits)
    let ?g = "mset (generated (FieldEvent [] ev))"
    have "mset (field_ids c) \<subseteq># mset (field_ids (cs ! index)) + ?g"
      using c by (rule Cons.IH)
    then have "mset (fields_ids cs) + mset (field_ids c) \<subseteq>#
               mset (fields_ids cs) + (mset (field_ids (cs ! index)) + ?g)"
      by simp
    then have "mset (fields_ids (cs[index := c])) + mset (field_ids (cs ! index)) \<subseteq>#
               (mset (fields_ids cs) + ?g) + mset (field_ids (cs ! index))"
      using mset_fields_ids_update[OF i, of c] by (simp add: ac_simps)
    then have "mset (fields_ids (cs[index := c])) \<subseteq># mset (fields_ids cs) + ?g"
      by (simp only: subset_mset.add_le_cancel_right)
    with cs f' show ?thesis by (simp add: field_ids_children)
  qed
qed

lemma builderEvent_ids:
  "mset (fields_ids (builderEvent path ev fields)) \<subseteq>#
     mset (fields_ids fields) + mset (generated (FieldEvent [] ev))"
proof (cases path)
  case Nil
  then show ?thesis by simp
next
  case (Cons index rest)
  let ?g = "mset (generated (FieldEvent [] ev))"
  show ?thesis
  proof (cases "index < length fields")
    case False
    with Cons show ?thesis by simp
  next
    case i: True
    show ?thesis
    proof (cases "rest = [] \<and> ev = DeleteField")
      case True
      with Cons i show ?thesis
        by (simp add: handleFieldDelete_def mset_fields_ids_filter_index subset_mset.add_increasing2)
    next
      case False
      show ?thesis
      proof (cases "componentEvent rest ev (fields ! index)")
        case None
        with Cons i False show ?thesis by auto
      next
        case (Some c)
        then have "mset (field_ids c) \<subseteq># mset (field_ids (fields ! index)) + ?g"
          by (rule componentEvent_ids)
        then have "mset (fields_ids fields) + mset (field_ids c) \<subseteq>#
               mset (fields_ids fields) + (mset (field_ids (fields ! index)) + ?g)"
          by simp
        then have "mset (fields_ids (fields[index := c])) + mset (field_ids (fields ! index)) \<subseteq>#
               (mset (fields_ids fields) + ?g) + mset (field_ids (fields ! index))"
          using mset_fields_ids_update[OF i, of c] by (simp add: ac_simps)
        then have "mset (fields_ids (fields[index := c])) \<subseteq># mset (fields_ids fields) + ?g"
          by (simp only: subset_mset.add_le_cancel_right)
        with Cons i False Some show ?thesis
          by (auto simp: handleFieldUpdate_def array_set_def)
      qed
    qed
  qed
qed

lemma step_ids:
  "mset (fields_ids (step a fields)) \<subseteq># mset (fields_ids fields) + mset (generated a)"
proof (cases a)
  case (AddField gid)
  then show ?thesis
    by (simp add: handleAddField_def createNewField_def fields_ids_append)
next
  case (AddFieldWithType gid t)
  then show ?thesis
    by (simp add: addFieldWithType_def createNewField_def fields_ids_append)
next
  case (FieldEvent path ev)
  then show ?thesis using builderEvent_ids[of path ev fields] generated_path[of path ev] by simp
next
  case (Reset gid)
  then show ?thesis by (simp add: createNewField_def)
qed

lemma run_ids:
  "mset (fields_ids (run as fields)) \<subseteq># mset (fields_ids fields) + mset (concat (map generated as))"
proof (induction as arbitrary: fields)
  case Nil
  then show ?case by simp
next
  case (Cons a as)
  have "mset (fields_ids (run as (step a fields))) \<subseteq>#
        mset (fields_ids (step a fields)) + mset (concat (map generated as))"
    by (rule Cons.IH)
  also have "\<dots> \<subseteq># (mset (fields_ids fields) + mset (generated a)) + mset (concat (map generated as))"
    using step_ids[of a fields] by (simp only: subset_mset.add_le_cancel_right)
  finally show ?case by (simp add: ac_simps)
qed

lemma distinct_mset_subseteq:
  assumes "mset xs \<subseteq># mset ys" and "distinct ys"
  shows "distinct xs"
proof -
  have "count (mset xs) x \<le> 1" for x
  proof -
    have "count (mset xs) x \<le> count (mset ys) x" using assms(1) by (rule mset_subset_eq_count)
    also have "\<dots> \<le> 1" using assms(2) by (simp add: distinct_count_atmost_1)
    finally show ?thesis .
  qed
  then show ?thesis unfolding distinct_count_atmost_1
    by (metis count_mset_0_iff le_antisym less_one linorder_le_less_linear)
qed

section \<open>The claims\<close>

subsection \<open>The serializer\<close>

text \<open>
  C1. \<^verbatim>\<open>convertToJSON\<close> is to map the key of every \<^verbatim>\<open>String\<close> field to
  \<^verbatim>\<open>"string"\<close>, of every \<^verbatim>\<open>Number\<close> field to 42 and of every \<^verbatim>\<open>Nested\<close>
  field to the conversion of its children. The source falls short of this for a field
  named \<^verbatim>\<open>__proto__\<close>: the user resets the builder, names the one field
  \<^verbatim>\<open>__proto__\<close>, and the document has no entry at all, where
  \<^verbatim>\<open>{"__proto__": "string"}\<close> is expected. For every other key the lemmas
  \<open>convertField_String\<close>, \<open>convertField_Number\<close> and \<open>convertField_Nested\<close>
  give the entry, and \<open>convertToJSON_snoc\<close> the order.
\<close>

theorem convertToJSON_proto_key_dropped:
  "run [Reset (str ''k3j9x2m1q''), FieldEvent [0] (KeyUpdate (str ''__proto__''))] []
     = [SchemaField (str ''k3j9x2m1q'') (str ''__proto__'') String Undefined (Val False)] \<and>
   convertToJSON
     [SchemaField (str ''k3j9x2m1q'') (str ''__proto__'') String Undefined (Val False)]
     = Map.empty"
  by (simp add: convertToJSON_def assign_def createNewField_def handleKeyUpdate_def
      handleFieldUpdate_def array_set_def trim_def isWhiteSpace_def str_def)

text \<open>
  C3. Of two sibling fields with the same key the later one is to win. With the key
  \<^verbatim>\<open>__proto__\<close> neither assignment creates a property, so the document has no
  entry under the key, where 42 is expected (for any other key see
  \<open>convertToJSON_last_write_wins\<close>).
\<close>

theorem convertToJSON_duplicate_proto_key:
  "convertToJSON
     [SchemaField (str ''i1'') (str ''__proto__'') String Undefined (Val False),
      SchemaField (str ''i2'') (str ''__proto__'') Number Undefined (Val False)]
     (str ''__proto__'') = None"
  by (simp add: convertToJSON_def assign_def)

text \<open>
  C4. Toggling \<^verbatim>\<open>collapsed\<close> at any field of the tree, at any depth, leaves the
  document as it was. The field is addressed by its index path; a path that addresses no
  field leaves the tree unchanged.
\<close>

theorem toggleCollapsed_invisible:
  "convertToJSON (builderEvent path ToggleCollapsed fields) = convertToJSON fields"
proof (cases path)
  case Nil
  then show ?thesis by simp
next
  case (Cons index rest)
  show ?thesis
  proof (cases "index < length fields")
    case False
    with Cons show ?thesis by simp
  next
    case True
    show ?thesis
    proof (cases "componentEvent rest ToggleCollapsed (fields ! index)")
      case None
      with Cons True show ?thesis by simp
    next
      case (Some f')
      then have "convertField f' = convertField (fields ! index)" by (rule componentEvent_toggle)
      with True have "forEachField (fields[index := f']) = forEachField fields"
        by (rule forEachField_update)
      with Cons True Some show ?thesis
        by (simp add: convertToJSON_def handleFieldUpdate_def array_set_def)
    qed
  qed
qed

theorem toggleCollapsed_invisible_witness:
  "builderEvent [0, 0] ToggleCollapsed
     [SchemaField (str ''p'') (str ''a'') Nested
        (Val [SchemaField (str ''q'') (str ''b'') Nested (Val []) (Val False)]) (Val True)]
     \<noteq> [SchemaField (str ''p'') (str ''a'') Nested
        (Val [SchemaField (str ''q'') (str ''b'') Nested (Val []) (Val False)]) (Val True)] \<and>
   convertToJSON (builderEvent [0, 0] ToggleCollapsed
     [SchemaField (str ''p'') (str ''a'') Nested
        (Val [SchemaField (str ''q'') (str ''b'') Nested (Val []) (Val False)]) (Val True)])
     = [str ''a'' \<mapsto> JObject [str ''b'' \<mapsto> JObject Map.empty]]"
  using toggleCollapsed_invisible
    [of "[0, 0]" "[SchemaField (str ''p'') (str ''a'') Nested
        (Val [SchemaField (str ''q'') (str ''b'') Nested (Val []) (Val False)]) (Val True)]"]
  by (simp add: handleNestedFieldUpdate_def array_set_def handleFieldUpdate_def
      toggleCollapsed_def convertToJSON_def assign_def str_def)

text \<open>
  C10 as stated: whenever a \<^verbatim>\<open>Nested\<close> field has no children array, the document
  has no entry under its key. This fails when a sibling carries the same key.
\<close>

theorem convertToJSON_no_children_counterexample:
  "ftype (SchemaField (str ''i1'') (str ''a'') Nested Undefined (Val False)) = Nested \<and>
   \<not> truthy_array (children (SchemaField (str ''i1'') (str ''a'') Nested Undefined (Val False))) \<and>
   convertToJSON
     [SchemaField (str ''i1'') (str ''a'') Nested Undefined (Val False),
      SchemaField (str ''i2'') (str ''a'') String Undefined (Val False)]
     (str ''a'') \<noteq> None"
  by (simp add: convertToJSON_def assign_def str_def)

text \<open>
  C10, amended. A \<^verbatim>\<open>Nested\<close> field whose \<^verbatim>\<open>children\<close> is absent or undefined
  adds nothing: the document is that of the sequence without the field, and its key has
  no entry unless another field of the sequence carries the same key.
\<close>

theorem convertToJSON_no_children:
  assumes "ftype f = Nested" and "\<not> truthy_array (children f)"
  shows "convertToJSON (xs @ f # ys) = convertToJSON (xs @ ys) \<and>
     (key f \<notin> key ` set (xs @ ys) \<longrightarrow> convertToJSON (xs @ f # ys) (key f) = None)"
proof -
  have eq: "convertToJSON (xs @ f # ys) = convertToJSON (xs @ ys)"
    using assms by (simp add: convertToJSON_def forEachField_append convertField_no_children)
  have "convertToJSON (xs @ ys) (key f) = None" if "key f \<notin> key ` set (xs @ ys)"
    using that forEachField_other_keys[of "key f" "xs @ ys" Map.empty]
    by (simp add: convertToJSON_def)
  with eq show ?thesis by simp
qed

theorem convertToJSON_no_children_witness:
  "ftype (SchemaField (str ''i1'') (str ''a'') Nested Absent (Val False)) = Nested \<and>
   \<not> truthy_array (children (SchemaField (str ''i1'') (str ''a'') Nested Absent (Val False))) \<and>
   key (SchemaField (str ''i1'') (str ''a'') Nested Absent (Val False)) \<notin>
     key ` set ([SchemaField (str ''i0'') (str ''b'') Number Undefined (Val False)] @ []) \<and>
   convertToJSON
     [SchemaField (str ''i0'') (str ''b'') Number Undefined (Val False),
      SchemaField (str ''i1'') (str ''a'') Nested Absent (Val False)]
     = [str ''b'' \<mapsto> JNumber 42] \<and>
   convertToJSON
     [SchemaField (str ''i0'') (str ''b'') Number Undefined (Val False),
      SchemaField (str ''i1'') (str ''a'') Nested Absent (Val False)]
     (str ''a'') = None"
  using convertToJSON_no_children
    [of "SchemaField (str ''i1'') (str ''a'') Nested Absent (Val False)"
        "[SchemaField (str ''i0'') (str ''b'') Number Undefined (Val False)]" "[]"]
  by (simp add: str_def convertToJSON_def assign_def)

subsection \<open>The field handlers\<close>

text \<open>
  C5. Choosing the type \<^verbatim>\<open>Nested\<close> yields a field with an empty children array and
  \<^verbatim>\<open>collapsed = false\<close>, whatever the field was before: the children of a field
  that was \<^verbatim>\<open>Nested\<close> already are gone, and the only id left below the field is its
  own.
\<close>

theorem handleTypeChange_Nested_resets:
  "children (handleTypeChange field Nested) = Val [] \<and>
   collapsed (handleTypeChange field Nested) = Val False \<and>
   ftype (handleTypeChange field Nested) = Nested \<and>
   field_ids (handleTypeChange field Nested) = [fid field]"
  by (simp add: handleTypeChange_def)

text \<open>
  C6 as stated: \<^verbatim>\<open>collapsed = false\<close> holds if and only if the kind is
  \<^verbatim>\<open>Nested\<close>. The source sets \<^verbatim>\<open>collapsed: false\<close> for every type.
\<close>

theorem createNewField_collapsed_counterexample:
  "\<not> (collapsed (createNewField (str ''k3j9x2m1q'') String) = Val False \<longleftrightarrow> String = Nested)"
  by (simp add: createNewField_def)

text \<open>
  C6, amended. \<^verbatim>\<open>createNewField\<close> returns a field with the id that
  \<^verbatim>\<open>generateId\<close> returned, the empty key and the given type; \<^verbatim>\<open>children\<close> is
  the empty array if and only if the type is \<^verbatim>\<open>Nested\<close> and undefined otherwise;
  \<^verbatim>\<open>collapsed\<close> is false for every type.
\<close>

theorem createNewField_shape:
  "fid (createNewField gid type) = gid \<and>
   key (createNewField gid type) = [] \<and>
   ftype (createNewField gid type) = type \<and>
   (children (createNewField gid type) = Val [] \<longleftrightarrow> type = Nested) \<and>
   (type \<noteq> Nested \<longrightarrow> children (createNewField gid type) = Undefined) \<and>
   collapsed (createNewField gid type) = Val False"
  by (simp add: createNewField_def)

theorem createNewField_shape_witness:
  "Number \<noteq> Nested \<and>
   children (createNewField (str ''k3j9x2m1q'') Number) = Undefined \<and>
   collapsed (createNewField (str ''k3j9x2m1q'') Number) = Val False \<and>
   children (createNewField (str ''k3j9x2m1q'') Nested) = Val []"
  using createNewField_shape [of "str ''k3j9x2m1q''" Number]
    createNewField_shape [of "str ''k3j9x2m1q''" Nested]
  by simp

text \<open>
  C7. \<^verbatim>\<open>handleKeyUpdate\<close> trims the edited name: the name is the trimmed string
  between a prefix and a suffix of white space, and the trimmed string neither starts nor
  ends with white space. When the trimmed string is empty \<^verbatim>\<open>onUpdate\<close> is not
  called and the tree stays as it is, at whatever depth the field lies; otherwise the
  field passed to \<^verbatim>\<open>onUpdate\<close> is the old one with the trimmed string as its key.
\<close>

theorem handleKeyUpdate_trim:
  "(trim v = [] \<longrightarrow>
      fst (handleKeyUpdate field (ComponentState e v)) = None \<and>
      builderEvent path (KeyUpdate v) fields = fields) \<and>
   (trim v \<noteq> [] \<longrightarrow>
      fst (handleKeyUpdate field (ComponentState e v)) =
        Some (SchemaField (fid field) (trim v) (ftype field) (children field) (collapsed field)) \<and>
      \<not> isWhiteSpace (hd (trim v)) \<and> \<not> isWhiteSpace (last (trim v))) \<and>
   (\<exists>pre suf. v = pre @ trim v @ suf \<and> list_all isWhiteSpace pre \<and> list_all isWhiteSpace suf)"
proof (intro conjI impI)
  assume "trim v = []"
  then show "fst (handleKeyUpdate field (ComponentState e v)) = None"
    by (simp add: handleKeyUpdate_def)
next
  assume empty: "trim v = []"
  show "builderEvent path (KeyUpdate v) fields = fields"
  proof (cases path)
    case Nil
    then show ?thesis by simp
  next
    case (Cons index rest)
    with componentEvent_KeyUpdate_rejected[OF empty, of rest "fields ! index"]
    show ?thesis by simp
  qed
next
  assume "trim v \<noteq> []"
  then show "fst (handleKeyUpdate field (ComponentState e v)) =
        Some (SchemaField (fid field) (trim v) (ftype field) (children field) (collapsed field))"
    by (simp add: handleKeyUpdate_def)
next
  assume "trim v \<noteq> []"
  then show "\<not> isWhiteSpace (hd (trim v))" by (rule trim_ends)
next
  assume "trim v \<noteq> []"
  then show "\<not> isWhiteSpace (last (trim v))" by (rule trim_ends)
next
  show "\<exists>pre suf. v = pre @ trim v @ suf \<and> list_all isWhiteSpace pre \<and> list_all isWhiteSpace suf"
    by (rule trim_decompose)
qed

theorem handleKeyUpdate_trim_witness:
  "trim (str ''   '') = [] \<and>
   fst (handleKeyUpdate (createNewField (str ''k3j9x2m1q'') String)
          (ComponentState True (str ''   ''))) = None \<and>
   builderEvent [0] (KeyUpdate (str ''   '')) [createNewField (str ''k3j9x2m1q'') String]
     = [createNewField (str ''k3j9x2m1q'') String] \<and>
   trim (str '''') = [] \<and>
   trim (str ''  x '') \<noteq> [] \<and>
   fst (handleKeyUpdate (createNewField (str ''k3j9x2m1q'') String)
          (ComponentState True (str ''  x ''))) =
     Some (SchemaField (str ''k3j9x2m1q'') (str ''x'') String Undefined (Val False))"
  using
    handleKeyUpdate_trim [of "str ''   ''" "createNewField (str ''k3j9x2m1q'') String" True
      "[0]" "[createNewField (str ''k3j9x2m1q'') String]"]
    handleKeyUpdate_trim [of "str ''  x ''" "createNewField (str ''k3j9x2m1q'') String" True
      "[0]" "[createNewField (str ''k3j9x2m1q'') String]"]
  by (simp add: trim_def isWhiteSpace_def str_def createNewField_def)

text \<open>
  C8 as stated: choosing for a \<^verbatim>\<open>String\<close> or \<^verbatim>\<open>Number\<close> field the type it has
  yields a field equal to the original. The source deletes \<^verbatim>\<open>children\<close> and
  \<^verbatim>\<open>collapsed\<close>, and a field as \<^verbatim>\<open>createNewField\<close> returns it has
  \<^verbatim>\<open>collapsed: false\<close>.
\<close>

theorem handleTypeChange_same_type_counterexample:
  "ftype (createNewField (str ''k3j9x2m1q'') String) = String \<and>
   handleTypeChange (createNewField (str ''k3j9x2m1q'') String) String
     \<noteq> createNewField (str ''k3j9x2m1q'') String \<and>
   collapsed (handleTypeChange (createNewField (str ''k3j9x2m1q'') String) String) = Absent \<and>
   collapsed (createNewField (str ''k3j9x2m1q'') String) = Val False"
  by (simp add: handleTypeChange_def createNewField_def)

text \<open>
  C8, amended. Choosing for a \<^verbatim>\<open>String\<close> or \<^verbatim>\<open>Number\<close> field the type it has
  yields a field with the same id, key and type and without \<^verbatim>\<open>children\<close> and
  \<^verbatim>\<open>collapsed\<close>; it equals the original exactly when the original has neither
  property.
\<close>

theorem handleTypeChange_same_type:
  assumes "ftype field \<noteq> Nested"
  shows "handleTypeChange field (ftype field) =
           SchemaField (fid field) (key field) (ftype field) Absent Absent \<and>
         (handleTypeChange field (ftype field) = field \<longleftrightarrow>
            children field = Absent \<and> collapsed field = Absent)"
  using assms by (cases field) (auto simp: handleTypeChange_def)

theorem handleTypeChange_same_type_witness:
  "ftype (SchemaField (str ''k3j9x2m1q'') (str ''age'') Number Absent Absent) \<noteq> Nested \<and>
   handleTypeChange (SchemaField (str ''k3j9x2m1q'') (str ''age'') Number Absent Absent) Number
     = SchemaField (str ''k3j9x2m1q'') (str ''age'') Number Absent Absent"
  using handleTypeChange_same_type
    [of "SchemaField (str ''k3j9x2m1q'') (str ''age'') Number Absent Absent"]
  by simp

text \<open>
  C9. No handler of a field changes its id: the field that \<^verbatim>\<open>handleTypeChange\<close>,
  \<^verbatim>\<open>handleKeyUpdate\<close> (when it calls \<^verbatim>\<open>onUpdate\<close> at all) and
  \<^verbatim>\<open>toggleCollapsed\<close> pass on has the id of the original.
\<close>

theorem handlers_keep_id:
  "fid (handleTypeChange field newType) = fid field \<and>
   (\<forall>f'. fst (handleKeyUpdate field st) = Some f' \<longrightarrow> fid f' = fid field) \<and>
   fid (toggleCollapsed field) = fid field"
  by (auto simp: handleTypeChange_def handleKeyUpdate_def toggleCollapsed_def split: if_splits)

theorem handlers_keep_id_witness:
  "fst (handleKeyUpdate (SchemaField (str ''k3j9x2m1q'') (str ''age'') Number Absent Absent)
          (ComponentState True (str ''years'')))
     = Some (SchemaField (str ''k3j9x2m1q'') (str ''years'') Number Absent Absent) \<and>
   fid (SchemaField (str ''k3j9x2m1q'') (str ''years'') Number Absent Absent) = str ''k3j9x2m1q''"
  using handlers_keep_id
    [of "SchemaField (str ''k3j9x2m1q'') (str ''age'') Number Absent Absent" Number
        "ComponentState True (str ''years'')"]
  by (simp add: handleKeyUpdate_def trim_def isWhiteSpace_def str_def)

subsection \<open>The ids of the tree\<close>

text \<open>
  C2 as stated: after every sequence of operations from the empty tree all ids of the tree
  differ. The id of a new field is what \<^verbatim>\<open>generateId\<close> returns, and when it
  returns the same string twice two fields share it.
\<close>

theorem generateId_collision_counterexample:
  "\<not> distinct (fields_ids (run [AddField (str ''k3j9x2m1q''), AddField (str ''k3j9x2m1q'')] []))"
  by (simp add: handleAddField_def createNewField_def)

text \<open>
  C2, amended. After every sequence of operations from the empty tree (adding a field at
  the root or below a field, choosing a type, renaming, collapsing, deleting, resetting),
  all ids of the tree differ, provided that the strings \<^verbatim>\<open>generateId\<close> returned
  during the sequence differ from each other: no operation copies a field or an id.
\<close>

theorem run_ids_distinct:
  "distinct (concat (map generated as)) \<Longrightarrow> distinct (fields_ids (run as []))"
proof -
  assume d: "distinct (concat (map generated as))"
  have "mset (fields_ids (run as [])) \<subseteq># mset (concat (map generated as))"
    using run_ids[of as "[]"] by simp
  then show ?thesis using d by (rule distinct_mset_subseteq)
qed

theorem run_ids_distinct_witness:
  "distinct (concat (map generated
     [AddFieldWithType (str ''a1'') Nested, FieldEvent [0] (AddNestedField (str ''b2'')),
      AddField (str ''c3''), FieldEvent [0, 0] (TypeChange Number), FieldEvent [1] DeleteField])) \<and>
   fields_ids (run
     [AddFieldWithType (str ''a1'') Nested, FieldEvent [0] (AddNestedField (str ''b2'')),
      AddField (str ''c3''), FieldEvent [0, 0] (TypeChange Number), FieldEvent [1] DeleteField] [])
     = [str ''a1'', str ''b2''] \<and>
   distinct (fields_ids (run
     [AddFieldWithType (str ''a1'') Nested, FieldEvent [0] (AddNestedField (str ''b2'')),
      AddField (str ''c3''), FieldEvent [0, 0] (TypeChange Number), FieldEvent [1] DeleteField] []))"
  using run_ids_distinct
    [of "[AddFieldWithType (str ''a1'') Nested, FieldEvent [0] (AddNestedField (str ''b2'')),
          AddField (str ''c3''), FieldEvent [0, 0] (TypeChange Number), FieldEvent [1] DeleteField]"]
  by (simp add: str_def addFieldWithType_def handleAddField_def createNewField_def
      handleAddNestedField_def handleNestedFieldUpdate_def handleFieldUpdate_def
      handleFieldDelete_def handleTypeChange_def array_set_def)


end
